theory Spec2Isabelle
  imports Complex_Main
begin

section \<open>GPA: bilateral filtering by Gaussian-polynomial approximation\<close>

text \<open>
  The development embeds the function \<^verbatim>\<open>GPA\<close> of \<^verbatim>\<open>muvsfunc_misc.py\<close> and its
  local helper \<^verbatim>\<open>estimate_iteration\<close>.

  Python's \<^verbatim>\<open>float\<close> and the 32-bit float samples of the frame server are idealised
  as \<^typ>\<open>real\<close>: rounding, overflow, infinities and NaN are outside the model. Python's
  unbounded \<^verbatim>\<open>int\<close> is \<^typ>\<open>int\<close>. The exceptions that the arithmetic of
  \<^verbatim>\<open>estimate_iteration\<close> can raise on real numbers are values of the type \<open>error\<close>:
  \<^verbatim>\<open>math.log\<close> raises \<^verbatim>\<open>ValueError\<close> on an argument that is not positive, and
  \<^verbatim>\<open>/\<close> raises \<^verbatim>\<open>ZeroDivisionError\<close> on a zero divisor.
\<close>

subsection \<open>The iteration-count estimator\<close>

datatype error = ValueError | ZeroDivisionError

text \<open>
  One pass of the loop body
  \<^verbatim>\<open>N -= (N * math.log(N) - p * N - q) / (math.log(N) + 1 - p)\<close>.
  The logarithm of the numerator is evaluated first, the division last.
\<close>

definition newton_step :: "real \<Rightarrow> real \<Rightarrow> real \<Rightarrow> error + real" where
  "newton_step p q N =
     (if N \<le> 0 then Inl ValueError
      else if ln N + 1 - p = 0 then Inl ZeroDivisionError
      else Inr (N - (N * ln N - p * N - q) / (ln N + 1 - p)))"

text \<open>\<^verbatim>\<open>for i in range(k): N -= ...\<close>; the first exception ends the loop.\<close>

fun newton_loop :: "nat \<Rightarrow> real \<Rightarrow> real \<Rightarrow> real \<Rightarrow> error + real" where
  "newton_loop 0 p q N = Inr N"
| "newton_loop (Suc k) p q N =
     (case newton_step p q N of
        Inl e \<Rightarrow> Inl e
      | Inr N' \<Rightarrow> newton_loop k p q N')"

definition estimate_iteration :: "real \<Rightarrow> real \<Rightarrow> real \<Rightarrow> error + int" where
  "estimate_iteration sigmaR T eps =
     (if sigmaR > 70 then Inr 10
      else if sigmaR < 5 then Inr 800
      else
        let lam = (T / sigmaR) ^ 2 in
        if lam \<le> 0 then Inl ValueError
        else
          let p = 1 + ln lam in
          if eps \<le> 0 then Inl ValueError
          else
            let q = - lam - ln eps;
                t = q / exp 1 / lam;
                W = t - t ^ 2 + 1.5 * t ^ 3 - (8 / 3) * t ^ 4 in
            if W = 0 then Inl ZeroDivisionError
            else
              let N = min (max (q / W) 10) 300 in
              case (if sigmaR < 30 then newton_loop 5 p q N else Inr N) of
                Inl e \<Rightarrow> Inl e
              | Inr N \<Rightarrow> Inr \<lceil>N\<rceil>)"

text \<open>
  The local variables of \<^verbatim>\<open>estimate_iteration\<close> in its third branch, as functions of
  the arguments: \<^verbatim>\<open>lam\<close>, \<^verbatim>\<open>p\<close>, \<^verbatim>\<open>q\<close>, \<^verbatim>\<open>t\<close>, \<^verbatim>\<open>W\<close> and the value of \<^verbatim>\<open>N\<close>
  before the Newton loop. \<open>lambert_poly\<close> is the polynomial of \<^verbatim>\<open>W\<close>, the series of
  Lambert's function cut after the fourth power, and \<open>lambert_factor\<close> its cofactor:
  \<open>lambert_poly t = t * lambert_factor t\<close>.
\<close>

definition est_lam :: "real \<Rightarrow> real \<Rightarrow> real" where
  "est_lam sigmaR T = (T / sigmaR) ^ 2"

definition est_p :: "real \<Rightarrow> real \<Rightarrow> real" where
  "est_p sigmaR T = 1 + ln (est_lam sigmaR T)"

definition est_q :: "real \<Rightarrow> real \<Rightarrow> real \<Rightarrow> real" where
  "est_q sigmaR T eps = - est_lam sigmaR T - ln eps"

definition est_t :: "real \<Rightarrow> real \<Rightarrow> real \<Rightarrow> real" where
  "est_t sigmaR T eps = est_q sigmaR T eps / exp 1 / est_lam sigmaR T"

definition lambert_poly :: "real \<Rightarrow> real" where
  "lambert_poly t = t - t ^ 2 + 1.5 * t ^ 3 - (8 / 3) * t ^ 4"

definition lambert_factor :: "real \<Rightarrow> real" where
  "lambert_factor t = 1 - t + 1.5 * t ^ 2 - (8 / 3) * t ^ 3"

definition est_W :: "real \<Rightarrow> real \<Rightarrow> real \<Rightarrow> real" where
  "est_W sigmaR T eps = lambert_poly (est_t sigmaR T eps)"

definition est_N0 :: "real \<Rightarrow> real \<Rightarrow> real \<Rightarrow> real" where
  "est_N0 sigmaR T eps = min (max (est_q sigmaR T eps / est_W sigmaR T eps) 10) 300"

subsection \<open>Clips and the frame server's primitives\<close>

text \<open>
  A clip carries its sample format and its samples. The index type \<open>'px\<close> ranges over
  every sample of the clip (frame, plane, row and column): all operations of \<^verbatim>\<open>GPA\<close>
  but the low-pass filter act on each sample alone.
\<close>

datatype sample_type = INTEGER | FLOAT

record 'px clip =
  bits_per_sample :: nat
  sample_type :: sample_type
  pixels :: "'px \<Rightarrow> real"

text \<open>
  The collaborators that \<^verbatim>\<open>GPA\<close> calls and that are not part of the file are
  parameters of the model: \<^verbatim>\<open>core.tcanny.TCanny(clip, sigma, mode)\<close>,
  \<^verbatim>\<open>muf.BoxFilter(clip, radius)\<close> and \<^verbatim>\<open>mvf.Depth(clip, depth, sample, **depth_args)\<close>.
\<close>

record ('px, 'd) engine =
  TCanny :: "'px clip \<Rightarrow> real \<Rightarrow> int \<Rightarrow> 'px clip"
  BoxFilter :: "'px clip \<Rightarrow> real \<Rightarrow> 'px clip"
  Depth :: "'px clip \<Rightarrow> nat \<Rightarrow> sample_type \<Rightarrow> 'd \<Rightarrow> 'px clip"

text \<open>
  \<^verbatim>\<open>core.std.Expr(clips, expr)\<close> evaluates a program in reverse Polish notation at
  every sample; \<^verbatim>\<open>x\<close>, \<^verbatim>\<open>y\<close> and \<^verbatim>\<open>z\<close> load the sample of the first, second
  and third clip. The tokens are those that \<^verbatim>\<open>GPA\<close> writes.
\<close>

datatype tok = Tx | Ty | Tz | Num real | Add | Sub | Mul | Div | Exp | Dup

fun rpn_step :: "real list \<Rightarrow> tok \<Rightarrow> real list \<Rightarrow> real list option" where
  "rpn_step ins Tx st = (if 0 < length ins then Some (ins ! 0 # st) else None)"
| "rpn_step ins Ty st = (if 1 < length ins then Some (ins ! 1 # st) else None)"
| "rpn_step ins Tz st = (if 2 < length ins then Some (ins ! 2 # st) else None)"
| "rpn_step ins (Num c) st = Some (c # st)"
| "rpn_step ins Add (b # a # st) = Some ((a + b) # st)"
| "rpn_step ins Sub (b # a # st) = Some ((a - b) # st)"
| "rpn_step ins Mul (b # a # st) = Some ((a * b) # st)"
| "rpn_step ins Div (b # a # st) = Some ((a / b) # st)"
| "rpn_step ins Exp (a # st) = Some (exp a # st)"
| "rpn_step ins Dup (a # st) = Some (a # a # st)"
| "rpn_step ins _ _ = None"

fun rpn_run :: "real list \<Rightarrow> tok list \<Rightarrow> real list \<Rightarrow> real option" where
  "rpn_run ins [] st = (case st of [v] \<Rightarrow> Some v | _ \<Rightarrow> None)"
| "rpn_run ins (t # ts) st =
     (case rpn_step ins t st of
        None \<Rightarrow> None
      | Some st' \<Rightarrow> rpn_run ins ts st')"

text \<open>
  The result of \<^verbatim>\<open>Expr\<close> has the format of its first clip. The frame server rejects a
  malformed program when the filter is built; every program of \<^verbatim>\<open>GPA\<close> is well
  formed (the lemmas \<open>Expr_*\<close> below), so the default sample 0 is never produced.
\<close>

definition Expr :: "'px clip list \<Rightarrow> tok list \<Rightarrow> 'px clip" where
  "Expr clips expr =
     (hd clips)\<lparr>pixels := \<lambda>px.
        case rpn_run (map (\<lambda>c. pixels c px) clips) expr [] of
          Some v \<Rightarrow> v
        | None \<Rightarrow> 0\<rparr>"

text \<open>
  \<^verbatim>\<open>core.std.BlankClip(clip, color=[v] * clip.format.num_planes)\<close>: the format of
  \<open>clip\<close>, every sample of every plane set to \<open>v\<close>.
\<close>

definition BlankClip :: "'px clip \<Rightarrow> real \<Rightarrow> 'px clip" where
  "BlankClip clip v = clip\<lparr>pixels := \<lambda>px. v\<rparr>"

subsection \<open>The function GPA\<close>

text \<open>
  The body of \<^verbatim>\<open>for i in range(1, iteration+1)\<close>, on the loop's variables
  \<open>(F, G, P, Q, Fbar)\<close>; the assignments shadow the variables in the source's order.
\<close>

definition gpa_body ::
  "('px clip \<Rightarrow> 'px clip) \<Rightarrow> 'px clip \<Rightarrow>
   'px clip \<times> 'px clip \<times> 'px clip \<times> 'px clip \<times> 'px clip \<Rightarrow> int \<Rightarrow>
   'px clip \<times> 'px clip \<times> 'px clip \<times> 'px clip \<times> 'px clip" where
  "gpa_body Filter H = (\<lambda>(F, G, P, Q, Fbar) i.
     let sqrt_i = sqrt (real_of_int i);
         inv_sqrt_i = 1 / sqrt_i;
         Q = Expr [Q, G, Fbar] [Tx, Ty, Tz, Mul, Add];
         F = Expr [H, F] [Tx, Ty, Mul, Num inv_sqrt_i, Mul];
         Fbar = Filter F;
         P = Expr [P, G, Fbar] [Tx, Ty, Tz, Mul, Num sqrt_i, Mul, Add];
         G = Expr [H, G] [Tx, Ty, Mul, Num inv_sqrt_i, Mul]
     in (F, G, P, Q, Fbar))"

text \<open>
  From the float clip to the loop's variables after the loop: \<open>H\<close>, the initial planes,
  and \<open>iteration\<close> passes of the body (none when \<open>iteration < 1\<close>).
\<close>

definition gpa_accumulate ::
  "('px clip \<Rightarrow> 'px clip) \<Rightarrow> real \<Rightarrow> real \<Rightarrow> int \<Rightarrow> 'px clip \<Rightarrow>
   'px clip \<times> 'px clip \<times> 'px clip \<times> 'px clip \<times> 'px clip" where
  "gpa_accumulate Filter T sigmaR iteration clip =
     (let H = Expr [clip] [Tx, Num T, Sub, Num sigmaR, Div];
          F = Expr [H] [Num (- 0.5), Tx, Dup, Mul, Mul, Exp];
          G = BlankClip clip 1;
          P = BlankClip clip 0;
          Q = BlankClip clip 0;
          Fbar = Filter F
      in foldl (gpa_body Filter H) (F, G, P, Q, Fbar) [1..iteration])"

definition gpa_combine ::
  "('px clip \<Rightarrow> 'px clip) \<Rightarrow> real \<Rightarrow> real \<Rightarrow> int \<Rightarrow> 'px clip \<Rightarrow> 'px clip" where
  "gpa_combine Filter T sigmaR iteration clip =
     (case gpa_accumulate Filter T sigmaR iteration clip of
        (F, G, P, Q, Fbar) \<Rightarrow>
          Expr [P, Q] [Tx, Num sigmaR, Mul, Ty, Num (1 / 100000), Add, Div, Num T, Add])"

definition select_filter ::
  "('px, 'd) engine \<Rightarrow> int \<Rightarrow> real \<Rightarrow> 'px clip \<Rightarrow> 'px clip" where
  "select_filter eng mode sigmaS =
     (if mode = 0 then (\<lambda>c. TCanny eng c sigmaS (- 1))
      else (\<lambda>c. BoxFilter eng c (sigmaS + 1)))"

definition GPA ::
  "('px, 'd) engine \<Rightarrow> 'px clip \<Rightarrow> real \<Rightarrow> real \<Rightarrow> int \<Rightarrow> int \<Rightarrow> real \<Rightarrow> 'd \<Rightarrow>
   error + 'px clip" where
  "GPA eng clip sigmaS sigmaR mode iteration eps depth_args =
     (let T = 0.5;
          bits = bits_per_sample clip;
          sampleType = sample_type clip;
          Filter = select_filter eng mode sigmaS
      in case (if iteration = 0 then estimate_iteration (sigmaR * 255) T eps
               else Inr iteration) of
           Inl e \<Rightarrow> Inl e
         | Inr iteration \<Rightarrow>
             let clip = Depth eng clip 32 FLOAT depth_args;
                 res = gpa_combine Filter T sigmaR iteration clip
             in Inr (Depth eng res bits sampleType depth_args))"

subsection \<open>The recurrence of the specification\<close>

text \<open>
  The series accumulator as the specification words it, on planes of real samples:
  \<open>F\<^sub>0 = exp (- H\<^sup>2 / 2)\<close>, \<open>G\<^sub>0 = 1\<close>, \<open>P\<^sub>0 = Q\<^sub>0 = 0\<close>, \<open>Fbar\<^sub>0 = Filter F\<^sub>0\<close>, and for
  \<open>i = 1..N\<close> in order \<open>Q\<^sub>i = Q\<^sub>i\<^sub>-\<^sub>1 + G\<^sub>i\<^sub>-\<^sub>1 * Fbar\<^sub>i\<^sub>-\<^sub>1\<close>, \<open>F\<^sub>i = H * F\<^sub>i\<^sub>-\<^sub>1 / sqrt i\<close>,
  \<open>Fbar\<^sub>i = Filter F\<^sub>i\<close>, \<open>P\<^sub>i = P\<^sub>i\<^sub>-\<^sub>1 + G\<^sub>i\<^sub>-\<^sub>1 * Fbar\<^sub>i * sqrt i\<close>, \<open>G\<^sub>i = H * G\<^sub>i\<^sub>-\<^sub>1 / sqrt i\<close>.
  \<open>series Fl H n\<close> is \<open>(F\<^sub>n, Fbar\<^sub>n, G\<^sub>n, P\<^sub>n, Q\<^sub>n)\<close>. It is written from the specification,
  not from the code, and is what the code is compared with.
\<close>

type_synonym 'px plane = "'px \<Rightarrow> real"

fun series ::
  "('px plane \<Rightarrow> 'px plane) \<Rightarrow> 'px plane \<Rightarrow> nat \<Rightarrow>
   'px plane \<times> 'px plane \<times> 'px plane \<times> 'px plane \<times> 'px plane" where
  "series Fl H 0 =
     (let F0 = (\<lambda>x. exp (- (H x)\<^sup>2 / 2))
      in (F0, Fl F0, (\<lambda>x. 1), (\<lambda>x. 0), (\<lambda>x. 0)))"
| "series Fl H (Suc n) =
     (case series Fl H n of
        (F, Fbar, G, P, Q) \<Rightarrow>
          let i = real (Suc n);
              Q' = (\<lambda>x. Q x + G x * Fbar x);
              F' = (\<lambda>x. H x * F x / sqrt i);
              Fbar' = Fl F';
              P' = (\<lambda>x. P x + G x * Fbar' x * sqrt i);
              G' = (\<lambda>x. H x * G x / sqrt i)
          in (F', Fbar', G', P', Q'))"

text \<open>
  A filter on clips, seen as an operator on the planes of samples in the format of the
  clip \<open>c\<close>.
\<close>

definition plane_filter ::
  "('px clip \<Rightarrow> 'px clip) \<Rightarrow> 'px clip \<Rightarrow> 'px plane \<Rightarrow> 'px plane" where
  "plane_filter Filter c = (\<lambda>f. pixels (Filter (c\<lparr>pixels := f\<rparr>)))"

subsection \<open>Newton's method of the specification\<close>

text \<open>
  The refinement as the specification words it: Newton's method solving
  \<open>N * ln N - p * N - q = 0\<close>. \<open>newton_f\<close> is the function, \<open>newton_f'\<close> its derivative
  (lemma \<open>newton_f_deriv\<close>) and \<open>newton_spec\<close> one iteration, a total function on the
  reals. It is written from the specification and compared with \<open>newton_step\<close>.
\<close>

definition newton_f :: "real \<Rightarrow> real \<Rightarrow> real \<Rightarrow> real" where
  "newton_f p q N = N * ln N - p * N - q"

definition newton_f' :: "real \<Rightarrow> real \<Rightarrow> real" where
  "newton_f' p N = ln N + 1 - p"

definition newton_spec :: "real \<Rightarrow> real \<Rightarrow> real \<Rightarrow> real" where
  "newton_spec p q N = N - newton_f p q N / newton_f' p N"

subsection \<open>Concrete collaborators\<close>

text \<open>
  Two small engines on a clip of one sample, to evaluate \<^verbatim>\<open>GPA\<close> on concrete inputs:
  filters that return their input, and filters that return a plane filled with the value
  of their parameter (\<open>sigma\<close> or \<open>radius\<close>). \<open>Depth\<close> sets the format and keeps the
  samples.
\<close>

definition identity_engine :: "(unit, unit) engine" where
  "identity_engine =
     \<lparr>TCanny = (\<lambda>c sigma mode. c),
      BoxFilter = (\<lambda>c radius. c),
      Depth = (\<lambda>c depth sample args. c\<lparr>bits_per_sample := depth, sample_type := sample\<rparr>)\<rparr>"

definition grey_clip :: "unit clip" where
  "grey_clip = \<lparr>bits_per_sample = 32, sample_type = FLOAT, pixels = (\<lambda>x. 1 / 2)\<rparr>"

definition probe_engine :: "(unit, unit) engine" where
  "probe_engine =
     \<lparr>TCanny = (\<lambda>c sigma mode. c\<lparr>pixels := \<lambda>x. sigma\<rparr>),
      BoxFilter = (\<lambda>c radius. c\<lparr>pixels := \<lambda>x. radius\<rparr>),
      Depth = (\<lambda>c depth sample args. c\<lparr>bits_per_sample := depth, sample_type := sample\<rparr>)\<rparr>"

section \<open>Properties of the estimator\<close>

subsection \<open>The two constant branches\<close>

text \<open>
  C5. For every \<open>sigmaR > 70\<close> and every \<open>T > 0\<close>, \<open>eps > 0\<close>, \<open>estimate_iteration\<close>
  returns exactly 10.
\<close>

theorem estimate_iteration_large_sigmaR:
  assumes "sigmaR > 70" and "T > 0" and "eps > 0"
  shows "estimate_iteration sigmaR T eps = Inr 10"
  using assms by (simp add: estimate_iteration_def)

theorem estimate_iteration_large_sigmaR_witness:
  "(71::real) > 70 \<and> (1/2::real) > 0 \<and> (1/1000::real) > 0
   \<and> estimate_iteration 71 (1/2) (1/1000) = Inr 10"
  using estimate_iteration_large_sigmaR [of 71 "1/2" "1/1000"] by simp

text \<open>
  C6. For every \<open>sigmaR < 5\<close> (with \<open>sigmaR > 0\<close>) and every \<open>T > 0\<close>, \<open>eps > 0\<close>,
  \<open>estimate_iteration\<close> returns exactly 800.
\<close>

theorem estimate_iteration_small_sigmaR:
  assumes "sigmaR < 5" and "sigmaR > 0" and "T > 0" and "eps > 0"
  shows "estimate_iteration sigmaR T eps = Inr 800"
  using assms by (simp add: estimate_iteration_def)

theorem estimate_iteration_small_sigmaR_witness:
  "(4::real) < 5 \<and> (4::real) > 0 \<and> (1/2::real) > 0 \<and> (1/1000::real) > 0
   \<and> estimate_iteration 4 (1/2) (1/1000) = Inr 800"
  using estimate_iteration_small_sigmaR [of 4 "1/2" "1/1000"] by simp

subsection \<open>The third branch and the Newton loop\<close>

text \<open>
  For \<open>5 \<le> sigmaR \<le> 70\<close> and positive \<open>T\<close> and \<open>eps\<close> both logarithms are defined, and
  the function is its third branch, on the named local variables.
\<close>

lemma estimate_iteration_mid:
  assumes "5 \<le> sigmaR" and "sigmaR \<le> 70" and "0 < T" and "0 < eps"
  shows "estimate_iteration sigmaR T eps =
     (if est_W sigmaR T eps = 0 then Inl ZeroDivisionError
      else case (if sigmaR < 30
                 then newton_loop 5 (est_p sigmaR T) (est_q sigmaR T eps) (est_N0 sigmaR T eps)
                 else Inr (est_N0 sigmaR T eps)) of
             Inl e \<Rightarrow> Inl e
           | Inr N \<Rightarrow> Inr \<lceil>N\<rceil>)"
proof -
  have "0 < (T / sigmaR) ^ 2" using assms by simp
  then show ?thesis
    using assms
    by (simp add: estimate_iteration_def Let_def est_W_def lambert_poly_def est_N0_def
        est_t_def est_q_def est_p_def est_lam_def)
qed

lemma est_N0_bounds: "10 \<le> est_N0 sigmaR T eps \<and> est_N0 sigmaR T eps \<le> 300"
  by (simp add: est_N0_def)

lemma estimate_iteration_upper:
  assumes "30 \<le> sigmaR" and "sigmaR \<le> 70" and "0 < T" and "0 < eps"
    and "est_W sigmaR T eps \<noteq> 0"
  shows "estimate_iteration sigmaR T eps = Inr \<lceil>est_N0 sigmaR T eps\<rceil>"
  using assms by (simp add: estimate_iteration_mid)

text \<open>
  The loop body is one Newton iteration where it is defined, and the loop returns exactly
  when every iterate that it takes a logarithm of is positive and no divisor is zero.
\<close>

lemma newton_f_deriv:
  assumes "0 < N"
  shows "(newton_f p q has_real_derivative newton_f' p N) (at N)"
  unfolding newton_f_def [abs_def] newton_f'_def
  using assms by (auto intro!: derivative_eq_intros)

lemma newton_step_spec:
  "newton_step p q N =
     (if N \<le> 0 then Inl ValueError
      else if newton_f' p N = 0 then Inl ZeroDivisionError
      else Inr (newton_spec p q N))"
  by (simp add: newton_step_def newton_spec_def newton_f_def newton_f'_def)

lemma newton_loop_spec:
  "newton_loop k p q N = Inr N' \<longleftrightarrow>
     (\<forall>j<k. 0 < (newton_spec p q ^^ j) N \<and> newton_f' p ((newton_spec p q ^^ j) N) \<noteq> 0)
     \<and> N' = (newton_spec p q ^^ k) N"
proof (induction k arbitrary: N)
  case 0
  show ?case by auto
next
  case (Suc k)
  have all: "(\<forall>j<Suc k. Q j) \<longleftrightarrow> Q 0 \<and> (\<forall>j<k. Q (Suc j))" for Q
    by (metis less_Suc_eq_0_disj)
  show ?case
    unfolding all
    by (simp add: newton_step_spec Suc.IH funpow_swap1 del: funpow.simps)
       (simp add: funpow_Suc_right del: funpow.simps)
qed

lemma newton_spec_eq:
  assumes "newton_f' p N \<noteq> 0"
  shows "newton_spec p q N = (N + q) / newton_f' p N"
proof -
  have "newton_spec p q N * newton_f' p N = N + q"
    using assms
    by (simp add: newton_spec_def left_diff_distrib)
       (simp add: newton_f_def newton_f'_def algebra_simps)
  then show ?thesis
    using assms by (simp add: field_simps)
qed

lemma funpow_rest: "f x = x \<Longrightarrow> (f ^^ k) x = x"
  by (induction k) simp_all

subsection \<open>The polynomial of W\<close>

lemma lambert_poly_factor: "lambert_poly t = t * lambert_factor t"
  by (simp add: lambert_poly_def lambert_factor_def algebra_simps power2_eq_square
      power3_eq_cube power4_eq_xxxx)

lemma lambert_factor_ge_1:
  assumes "t \<le> 0"
  shows "1 \<le> lambert_factor t"
proof -
  have a: "0 \<le> t ^ 2" by simp
  have "t * t ^ 2 \<le> 0"
    using assms a by (rule mult_nonpos_nonneg)
  then have b: "t ^ 3 \<le> 0"
    by (simp add: power3_eq_cube power2_eq_square)
  show ?thesis
    unfolding lambert_factor_def using assms a b by linarith
qed

lemma lambert_factor_antimono:
  assumes "a \<le> b"
  shows "lambert_factor b \<le> lambert_factor a"
proof -
  have "lambert_factor a - lambert_factor b
        = (b - a) * (2 * (a + b - 3 / 8)\<^sup>2 + 23 / 32 + (2 / 3) * (a - b)\<^sup>2)"
    unfolding lambert_factor_def power2_eq_square power3_eq_cube
    by (simp add: field_simps)
  moreover have "0 \<le> (b - a) * (2 * (a + b - 3 / 8)\<^sup>2 + 23 / 32 + (2 / 3) * (a - b)\<^sup>2)"
    using assms by (intro mult_nonneg_nonneg add_nonneg_nonneg) simp_all
  ultimately show ?thesis by linarith
qed

lemma est_q_eq:
  assumes "0 < est_lam sigmaR T"
  shows "est_q sigmaR T eps = est_t sigmaR T eps * (exp 1 * est_lam sigmaR T)"
  using assms by (simp add: est_t_def)

lemma est_quotient:
  assumes "0 < est_lam sigmaR T" and "est_t sigmaR T eps \<noteq> 0"
  shows "est_q sigmaR T eps / est_W sigmaR T eps
         = exp 1 * est_lam sigmaR T / lambert_factor (est_t sigmaR T eps)"
  unfolding est_W_def lambert_poly_factor est_q_eq [OF assms(1)]
  using assms(2) by simp


subsection \<open>Bounds on the exponential and the logarithm\<close>

lemma exp_1_ge_2: "2 \<le> exp (1::real)"
  using exp_ge_add_one_self [of "1::real"] by simp

lemma exp_nat_le: "exp (real n) \<le> 3 ^ n"
proof -
  have "exp (real n) = exp 1 ^ n"
    using exp_of_nat_mult [of n "1::real"] by simp
  also have "\<dots> \<le> 3 ^ n"
    by (rule power_mono) (simp_all add: exp_le)
  finally show ?thesis .
qed

lemma ln_100000: "10 < ln (100000::real)"
proof -
  have "exp (real 10) \<le> 3 ^ 10" by (rule exp_nat_le)
  then have "exp 10 < (100000::real)" by simp
  then have "ln (exp 10) < ln (100000::real)"
    by (subst ln_less_cancel_iff) simp_all
  then show ?thesis by simp
qed

lemma lambert_factor_e: "lambert_factor (exp 1) < 0"
proof -
  let ?e = "exp (1::real)"
  have e2: "4 \<le> ?e\<^sup>2"
    using power_mono [OF exp_1_ge_2, of 2] by simp
  have "2 * ?e\<^sup>2 \<le> ?e * ?e\<^sup>2"
    using exp_1_ge_2 by (intro mult_right_mono) simp_all
  then have e3: "2 * ?e\<^sup>2 \<le> ?e ^ 3"
    by (simp add: power3_eq_cube power2_eq_square)
  show ?thesis
    unfolding lambert_factor_def using exp_1_ge_2 e2 e3 by linarith
qed

text \<open>
  Rational bounds on \<open>exp\<close> at \<open>1/4\<close>, \<open>1/2\<close>, 1, 2 and 4, by repeated squaring from
  \<open>1 + x \<le> exp x \<le> 1 + x + x\<^sup>2\<close>, and the products of them that bound the logarithms
  met below.
\<close>

lemma exp_sq_upper:
  assumes "exp x \<le> u" and "u\<^sup>2 \<le> v"
  shows "exp (2 * x) \<le> (v::real)"
proof -
  have "exp (2 * x) = (exp x)\<^sup>2" by (rule exp_double)
  also have "\<dots> \<le> u\<^sup>2" using assms(1) by (intro power_mono) simp_all
  finally show ?thesis using assms(2) by simp
qed

lemma exp_sq_lower:
  assumes "l \<le> exp x" and "0 \<le> l" and "v \<le> l\<^sup>2"
  shows "(v::real) \<le> exp (2 * x)"
proof -
  have "l\<^sup>2 \<le> (exp x)\<^sup>2" using assms(1,2) by (intro power_mono) simp_all
  also have "\<dots> = exp (2 * x)" by (rule exp_double [symmetric])
  finally show ?thesis using assms(3) by simp
qed

lemma exp_upper_bounds:
  "exp (1 / 4 :: real) \<le> 1289 / 1000"
  "exp (1 / 2 :: real) \<le> 16616 / 10000"
  "exp (1 :: real) \<le> 2761 / 1000"
  "exp (2 :: real) \<le> 76232 / 10000"
  "exp (4 :: real) \<le> 5812 / 100"
proof -
  have "exp (1 / 32 :: real) \<le> 1 + 1 / 32 + (1 / 32)\<^sup>2"
    by (rule exp_bound) simp_all
  then have a: "exp (1 / 32 :: real) \<le> 1057 / 1024"
    by (simp add: power2_eq_square)
  have b: "exp (1 / 16 :: real) \<le> 10655 / 10000"
    using exp_sq_upper [OF a, of "10655 / 10000"] by (simp add: power2_eq_square)
  have c: "exp (1 / 8 :: real) \<le> 11353 / 10000"
    using exp_sq_upper [OF b, of "11353 / 10000"] by (simp add: power2_eq_square)
  show d: "exp (1 / 4 :: real) \<le> 1289 / 1000"
    using exp_sq_upper [OF c, of "1289 / 1000"] by (simp add: power2_eq_square)
  show e: "exp (1 / 2 :: real) \<le> 16616 / 10000"
    using exp_sq_upper [OF d, of "16616 / 10000"] by (simp add: power2_eq_square)
  show f: "exp (1 :: real) \<le> 2761 / 1000"
    using exp_sq_upper [OF e, of "2761 / 1000"] by (simp add: power2_eq_square)
  show g: "exp (2 :: real) \<le> 76232 / 10000"
    using exp_sq_upper [OF f, of "76232 / 10000"] by (simp add: power2_eq_square)
  show "exp (4 :: real) \<le> 5812 / 100"
    using exp_sq_upper [OF g, of "5812 / 100"] by (simp add: power2_eq_square)
qed

lemma exp_lower_bounds:
  "16384 / 10000 \<le> exp (1 / 2 :: real)"
  "2684 / 1000 \<le> exp (1 :: real)"
  "72 / 10 \<le> exp (2 :: real)"
  "5184 / 100 \<le> exp (4 :: real)"
proof -
  have a: "65 / 64 \<le> exp (1 / 64 :: real)"
    using exp_ge_add_one_self [of "1 / 64 :: real"] by simp
  have b: "10314 / 10000 \<le> exp (1 / 32 :: real)"
    using exp_sq_lower [OF a, of "10314 / 10000"] by (simp add: power2_eq_square)
  have c: "10637 / 10000 \<le> exp (1 / 16 :: real)"
    using exp_sq_lower [OF b, of "10637 / 10000"] by (simp add: power2_eq_square)
  have d: "11314 / 10000 \<le> exp (1 / 8 :: real)"
    using exp_sq_lower [OF c, of "11314 / 10000"] by (simp add: power2_eq_square)
  have e: "128 / 100 \<le> exp (1 / 4 :: real)"
    using exp_sq_lower [OF d, of "128 / 100"] by (simp add: power2_eq_square)
  show f: "16384 / 10000 \<le> exp (1 / 2 :: real)"
    using exp_sq_lower [OF e, of "16384 / 10000"] by (simp add: power2_eq_square)
  show g: "2684 / 1000 \<le> exp (1 :: real)"
    using exp_sq_lower [OF f, of "2684 / 1000"] by (simp add: power2_eq_square)
  show h: "72 / 10 \<le> exp (2 :: real)"
    using exp_sq_lower [OF g, of "72 / 10"] by (simp add: power2_eq_square)
  show "5184 / 100 \<le> exp (4 :: real)"
    using exp_sq_lower [OF h, of "5184 / 100"] by (simp add: power2_eq_square)
qed

lemma ln_lower: "0 < x \<Longrightarrow> exp y \<le> x \<Longrightarrow> y \<le> ln (x::real)"
  by (simp add: ln_ge_iff)

lemma ln_upper:
  assumes "0 < x" and "x \<le> exp y"
  shows "ln (x::real) \<le> y"
proof -
  have "ln x \<le> ln (exp y)"
    using assms by (subst ln_le_cancel_iff) simp_all
  then show ?thesis by simp
qed

lemma exp_products:
  "exp (8 :: real) \<le> 4000" "4000 \<le> exp (17 / 2 :: real)"
  "exp (6 :: real) \<le> 468" "500 \<le> exp (13 / 2 :: real)"
  "exp (4 :: real) \<le> 704 / 10" "82 \<le> exp (9 / 2 :: real)"
  "exp (5 / 2 :: real) \<le> 136 / 10" "184 / 10 \<le> exp (3 :: real)"
proof -
  note U = exp_upper_bounds and L = exp_lower_bounds
  have "exp (8 :: real) = exp 4 * exp 4"
    using exp_add [of "4::real" 4] by simp
  also have "\<dots> \<le> (5812 / 100) * (5812 / 100)"
    by (intro mult_mono U) simp_all
  finally show "exp (8 :: real) \<le> 4000" by simp
  have "(5184 / 100) * (5184 / 100) * (16384 / 10000) \<le> exp (4::real) * exp 4 * exp (1 / 2)"
    by (intro mult_mono L) simp_all
  also have "\<dots> = exp (17 / 2 :: real)"
    by (simp add: exp_add [symmetric])
  finally show "4000 \<le> exp (17 / 2 :: real)" by simp
  have "exp (6 :: real) = exp 4 * exp 2"
    using exp_add [of "4::real" 2] by simp
  also have "\<dots> \<le> (5812 / 100) * (76232 / 10000)"
    by (intro mult_mono U) simp_all
  finally show "exp (6 :: real) \<le> 468" by simp
  have "(5184 / 100) * (72 / 10) * (16384 / 10000) \<le> exp (4::real) * exp 2 * exp (1 / 2)"
    by (intro mult_mono L) simp_all
  also have "\<dots> = exp (13 / 2 :: real)"
    by (simp add: exp_add [symmetric])
  finally show "500 \<le> exp (13 / 2 :: real)" by simp
  show "exp (4 :: real) \<le> 704 / 10"
    using U(5) by simp
  have "(5184 / 100) * (16384 / 10000) \<le> exp (4::real) * exp (1 / 2)"
    by (intro mult_mono L) simp_all
  also have "\<dots> = exp (9 / 2 :: real)"
    by (simp add: exp_add [symmetric])
  finally show "82 \<le> exp (9 / 2 :: real)" by simp
  have "exp (5 / 2 :: real) = exp 2 * exp (1 / 2)"
    by (simp add: exp_add [symmetric])
  also have "\<dots> \<le> (76232 / 10000) * (16616 / 10000)"
    by (intro mult_mono U) simp_all
  finally show "exp (5 / 2 :: real) \<le> 136 / 10" by simp
  have "(72 / 10) * (2684 / 1000) \<le> exp (2::real) * exp 1"
    by (intro mult_mono L) simp_all
  also have "\<dots> = exp (3 :: real)"
    by (simp add: exp_add [symmetric])
  finally show "184 / 10 \<le> exp (3 :: real)" by simp
qed

subsection \<open>Newton iterates above lam\<close>

text \<open>
  With \<open>p = 1 + ln lam\<close> the derivative \<open>newton_f' p N\<close> is \<open>ln N - ln lam\<close>, and
  \<open>newton_f p q\<close> is convex: a Newton step lands where \<open>newton_f p q\<close> is not
  negative. For \<open>q > 0\<close> such a point lies above \<open>lam\<close>, so from the first step on the
  iterates are defined, positive and do not increase; and they grow with \<open>q\<close>.
\<close>

lemma newton_convex:
  assumes N: "0 < N" and d: "newton_f' p N \<noteq> 0" and N': "0 < newton_spec p q N"
  shows "0 \<le> newton_f p q (newton_spec p q N)"
proof -
  let ?N' = "newton_spec p q N"
  have eq: "?N' * newton_f' p N = N + q"
    using d by (simp add: newton_spec_eq)
  have "ln (N / ?N') \<le> N / ?N' - 1"
    using N N' by (intro ln_le_minus_one) simp
  then have "ln N - ln ?N' \<le> N / ?N' - 1"
    using N N' by (simp add: ln_div)
  then have "?N' * (ln N - ln ?N') \<le> ?N' * (N / ?N' - 1)"
    using N' by (intro mult_left_mono) simp_all
  also have "\<dots> = N - ?N'"
    using N' by (simp add: field_simps)
  finally have conv: "?N' * (ln N - ln ?N') \<le> N - ?N'" .
  have "q = ?N' * (ln N + 1 - p) - N"
    using eq by (simp add: newton_f'_def)
  then have "newton_f p q ?N' = ?N' * ln ?N' - p * ?N' - (?N' * (ln N + 1 - p) - N)"
    by (simp add: newton_f_def)
  also have "\<dots> = (N - ?N') - ?N' * (ln N - ln ?N')"
    by (simp add: algebra_simps)
  finally show ?thesis
    using conv by simp
qed

lemma newton_above_step:
  assumes lam: "0 < lam" and p: "p = 1 + ln lam" and q: "0 < q" and N: "lam < N"
  shows "0 < newton_f' p N"
    and "newton_step p q N = Inr (newton_spec p q N)"
    and "0 < newton_spec p q N"
    and "0 \<le> newton_f p q (newton_spec p q N)"
proof -
  have Npos: "0 < N" using lam N by simp
  show d: "0 < newton_f' p N"
    using lam N by (simp add: newton_f'_def p)
  then show "newton_step p q N = Inr (newton_spec p q N)"
    using Npos by (simp add: newton_step_spec)
  have "newton_spec p q N = (N + q) / newton_f' p N"
    using d by (intro newton_spec_eq) simp
  then show pos: "0 < newton_spec p q N"
    using d q Npos by simp
  show "0 \<le> newton_f p q (newton_spec p q N)"
    using Npos d pos by (intro newton_convex) simp_all
qed

lemma newton_nonneg_above:
  assumes lam: "0 < lam" and p: "p = 1 + ln lam" and q: "0 < q"
    and N: "0 < N" and f: "0 \<le> newton_f p q N"
  shows "lam < N"
proof (rule ccontr)
  assume "\<not> lam < N"
  then have "N \<le> lam" by simp
  then have "ln N \<le> ln lam" using N by simp
  then have "N * (ln N - ln lam) \<le> 0"
    using N by (simp add: mult_nonneg_nonpos)
  moreover have "newton_f p q N = N * (ln N - ln lam) - N - q"
    by (simp add: newton_f_def p algebra_simps)
  ultimately show False using f q N by simp
qed

lemma newton_descend:
  assumes "0 < newton_f' p N" and "0 \<le> newton_f p q N"
  shows "newton_spec p q N \<le> N"
  using assms by (simp add: newton_spec_def)

lemma newton_high_loop:
  assumes lam: "0 < lam" and p: "p = 1 + ln lam" and q: "0 < q"
    and N: "0 < N" and f: "0 \<le> newton_f p q N"
  shows "\<exists>N'. newton_loop k p q N = Inr N' \<and> 0 < N' \<and> N' \<le> N"
  using N f
proof (induction k arbitrary: N)
  case 0
  then show ?case by simp
next
  case (Suc k)
  let ?N1 = "newton_spec p q N"
  have above: "lam < N"
    using lam p q Suc.prems by (rule newton_nonneg_above)
  note step = newton_above_step [OF lam p q above]
  have down: "?N1 \<le> N"
    using step(1) Suc.prems(2) by (rule newton_descend)
  obtain N' where N': "newton_loop k p q ?N1 = Inr N'" "0 < N'" "N' \<le> ?N1"
    using Suc.IH [OF step(3) step(4)] by blast
  show ?case
    using N' step(2) down by simp
qed

lemma newton_from_start:
  assumes lam: "0 < lam" and p: "p = 1 + ln lam" and q: "0 < q" and N: "lam < N"
  shows "\<exists>N'. newton_loop (Suc k) p q N = Inr N' \<and> 0 < N' \<and> N' \<le> newton_spec p q N"
proof -
  note s = newton_above_step [OF lam p q N]
  show ?thesis
    using newton_high_loop [OF lam p q s(3) s(4), of k] s(2) by simp
qed




text \<open>
  One step with \<open>p = 1 - ln c\<close> on an interval: for \<open>a \<le> N \<le> b\<close> and
  \<open>L \<le> ln (c * a)\<close>, \<open>ln (c * b) \<le> U\<close> the next iterate lies between
  \<open>(a - AU) / U\<close> and \<open>(b - AL) / L\<close>, where \<open>AL \<le> - q \<le> AU \<le> a\<close>.
\<close>

lemma newton_interval:
  assumes c: "0 < c" and p: "p = 1 - ln c"
    and a: "0 < a" and N: "a \<le> N" "N \<le> b"
    and q: "AL \<le> - q" "- q \<le> AU" and gap: "AU \<le> a"
    and L: "0 < L" "exp L \<le> c * a" and U: "c * b \<le> exp U"
  shows "newton_step p q N = Inr (newton_spec p q N)"
    and "(a - AU) / U \<le> newton_spec p q N"
    and "newton_spec p q N \<le> (b - AL) / L"
proof -
  have Npos: "0 < N" using a N by simp
  have f': "newton_f' p N = ln (c * N)"
    using c Npos by (simp add: newton_f'_def p ln_mult)
  have "c * a \<le> c * N" "c * N \<le> c * b"
    using c N by simp_all
  then have "exp L \<le> c * N" "c * N \<le> exp U"
    using L(2) U by linarith+
  then have lo: "L \<le> ln (c * N)" and hi: "ln (c * N) \<le> U"
    using c Npos by (auto intro!: ln_lower ln_upper)
  have pos: "0 < newton_f' p N" using lo L(1) by (simp add: f')
  then show "newton_step p q N = Inr (newton_spec p q N)"
    using Npos by (simp add: newton_step_spec)
  have eq: "newton_spec p q N = (N + q) / newton_f' p N"
    using pos by (intro newton_spec_eq) simp
  have num: "a - AU \<le> N + q" "N + q \<le> b - AL" "0 \<le> a - AU"
    using N q gap by simp_all
  show "(a - AU) / U \<le> newton_spec p q N"
    unfolding eq using num pos hi by (intro frac_le) (simp_all add: f')
  show "newton_spec p q N \<le> (b - AL) / L"
    unfolding eq using num pos lo L(1) by (intro frac_le) (simp_all add: f')
qed

subsection \<open>The estimator for T up to 1/2\<close>

text \<open>
  \<^verbatim>\<open>GPA\<close> passes \<open>T = 0.5\<close>. For \<open>5 \<le> sigmaR \<le> 70\<close>, \<open>T \<le> 1/2\<close> and \<open>eps \<le> 9/10\<close>:
  \<open>lam \<le> 1/100\<close>, \<open>q \<ge> 9/100\<close>, \<open>t \<ge> 1\<close> is past the root of \<open>lambert_factor\<close>, \<open>W\<close> is
  negative and the initial estimate is 10. For \<open>30 \<le> sigmaR\<close> the result is 10; for
  \<open>sigmaR < 30\<close> the five Newton steps start at 10, above \<open>lam\<close>.
\<close>

lemma est_negative_q:
  assumes lam: "0 < est_lam sigmaR T" "est_lam sigmaR T \<le> 3"
    and q: "est_q sigmaR T eps < 0"
  shows "est_W sigmaR T eps \<noteq> 0" and "est_N0 sigmaR T eps = 10"
proof -
  let ?t = "est_t sigmaR T eps"
  have t_neg: "?t < 0"
    using q lam(1) by (simp add: est_t_def divide_neg_pos)
  have fac: "1 \<le> lambert_factor ?t"
    using t_neg by (intro lambert_factor_ge_1) simp
  show "est_W sigmaR T eps \<noteq> 0"
    using t_neg fac by (simp add: est_W_def lambert_poly_factor)
  have "est_q sigmaR T eps / est_W sigmaR T eps
        = exp 1 * est_lam sigmaR T / lambert_factor ?t"
    using est_quotient [OF lam(1), of eps] t_neg by simp
  also have "\<dots> \<le> 3 * 3 / 1"
    using fac exp_le lam by (intro frac_le mult_mono) simp_all
  also have "\<dots> \<le> 10" by simp
  finally show "est_N0 sigmaR T eps = 10"
    by (simp add: est_N0_def)
qed


lemma est_half:
  assumes "5 \<le> sigmaR" and "0 < T" and "T \<le> 1 / 2" and "0 < eps" and "eps \<le> 9 / 10"
  shows "0 < est_lam sigmaR T" and "est_lam sigmaR T \<le> 1 / 100"
    and "9 / 100 \<le> est_q sigmaR T eps"
    and "est_W sigmaR T eps < 0"
    and "est_N0 sigmaR T eps = 10"
proof -
  let ?lam = "est_lam sigmaR T" and ?q = "est_q sigmaR T eps" and ?t = "est_t sigmaR T eps"
  show lam_pos: "0 < ?lam"
    using assms by (simp add: est_lam_def)
  have "T / sigmaR \<le> (1 / 2) / 5"
    using assms by (intro frac_le) simp_all
  then have "(T / sigmaR)\<^sup>2 \<le> ((1 / 2) / 5)\<^sup>2"
    using assms by (intro power_mono) simp_all
  then show lam_le: "?lam \<le> 1 / 100"
    by (simp add: est_lam_def power2_eq_square)
  have "ln eps \<le> ln (9 / 10)"
    using assms by simp
  also have "\<dots> \<le> 9 / 10 - 1"
    by (rule ln_le_minus_one) simp
  finally have "ln eps \<le> - (1 / 10)" by simp
  then show q: "9 / 100 \<le> ?q"
    using lam_le by (simp add: est_q_def)
  have "?q = ?t * (exp 1 * ?lam)"
    using lam_pos by (rule est_q_eq)
  also have "\<dots> \<le> ?t * (3 * (1 / 100))"
  proof (rule mult_left_mono)
    show "exp 1 * ?lam \<le> 3 * (1 / 100)"
      using exp_le lam_le lam_pos by (intro mult_mono) simp_all
    have "0 < ?q" using q by simp
    then show "0 \<le> ?t"
      using lam_pos by (simp add: est_t_def)
  qed
  finally have "1 \<le> ?t" using q by simp
  then have "lambert_factor ?t \<le> lambert_factor 1"
    by (rule lambert_factor_antimono)
  then have "lambert_factor ?t < 0"
    by (simp add: lambert_factor_def)
  then show W: "est_W sigmaR T eps < 0"
    using \<open>1 \<le> ?t\<close> by (simp add: est_W_def lambert_poly_factor mult_pos_neg)
  have "?q / est_W sigmaR T eps \<le> 0"
    using q W by (intro divide_nonneg_neg) simp_all
  then have "?q / est_W sigmaR T eps \<le> 10" by linarith
  then have "max (?q / est_W sigmaR T eps) 10 = 10" by (rule max_absorb2)
  then show "est_N0 sigmaR T eps = 10"
    unfolding est_N0_def by simp
qed

lemma estimate_iteration_half_upper:
  assumes "30 \<le> sigmaR" and "sigmaR \<le> 70" and "0 < T" and "T \<le> 1 / 2"
    and "0 < eps" and "eps \<le> 9 / 10"
  shows "estimate_iteration sigmaR T eps = Inr 10"
proof -
  have s: "5 \<le> sigmaR" using assms by simp
  note h = est_half [OF s assms(3-6)]
  have "est_W sigmaR T eps \<noteq> 0" using h(4) by simp
  then show ?thesis
    using estimate_iteration_upper [OF assms(1-3,5)] by (simp add: h(5))
qed

lemma estimate_iteration_half_newton:
  assumes "5 \<le> sigmaR" and "sigmaR < 30" and "0 < T" and "T \<le> 1 / 2"
    and "exp (- 4000) \<le> eps" and "eps \<le> 9 / 10"
  shows "\<exists>n. estimate_iteration sigmaR T eps = Inr n \<and> 0 < n \<and> n \<le> 800"
proof -
  let ?lam = "est_lam sigmaR T" and ?p = "est_p sigmaR T" and ?q = "est_q sigmaR T eps"
  have eps: "0 < eps"
    using assms(5) exp_gt_zero [of "- 4000 :: real"] by linarith
  note h = est_half [OF assms(1,3,4) eps assms(6)]
  have p: "?p = 1 + ln ?lam" by (simp add: est_p_def)
  have q: "0 < ?q" using h(3) by simp
  have start: "?lam < 10" using h(2) by simp
  obtain N' where N': "newton_loop 5 ?p ?q 10 = Inr N'" "0 < N'" "N' \<le> newton_spec ?p ?q 10"
    using newton_from_start [OF h(1) p q start, of 4] by (auto simp: eval_nat_numeral)
  have "- 4000 \<le> ln eps"
    using assms(5) eps by (simp add: ln_ge_iff)
  then have q_le: "?q \<le> 4000"
    using h(1) by (simp add: est_q_def)
  have "ln ?lam \<le> ln (1 / 100)"
    using h(1,2) by simp
  moreover have "6 \<le> ln (1000::real)"
    using exp_products(3) by (intro ln_lower) simp_all
  moreover have "ln (1000::real) = ln 10 + ln 100"
    using ln_mult [of "10::real" 100] by simp
  ultimately have d: "6 \<le> newton_f' ?p 10"
    by (simp add: newton_f'_def p ln_div)
  have "newton_spec ?p ?q 10 = (10 + ?q) / newton_f' ?p 10"
    using d by (intro newton_spec_eq) simp
  also have "\<dots> \<le> (10 + 4000) / 6"
    using q q_le d by (intro frac_le) simp_all
  finally have "N' \<le> 800" using N'(3) by simp
  then have "\<lceil>N'\<rceil> \<le> 800"
    by (simp add: ceiling_le_iff)
  moreover have "0 < \<lceil>N'\<rceil>"
    using N'(2) by simp
  moreover have "estimate_iteration sigmaR T eps = Inr \<lceil>N'\<rceil>"
  proof -
    have "5 \<le> sigmaR" "sigmaR \<le> 70" using assms by simp_all
    then show ?thesis
      using h(4) assms(2,3) eps by (simp add: estimate_iteration_mid h(5) N'(1))
  qed
  ultimately show ?thesis by blast
qed


lemma tolerance_in_range: "exp (- 4000) \<le> (1 / 1000 :: real)"
proof -
  have "ln (1000 :: real) \<le> 1000 - 1"
    by (rule ln_le_minus_one) simp
  then have "- 4000 \<le> ln (1 / 1000 :: real)"
    by (simp add: ln_div)
  then show ?thesis
    by (simp add: ln_ge_iff)
qed

subsection \<open>Values on concrete inputs\<close>

text \<open>
  \<open>sigmaR = 30\<close>, \<open>T = 300\<close>, so \<open>lam = 100\<close>, and \<open>eps = exp (- 100 - c * exp 1)\<close>, so
  \<open>q = c * exp 1\<close> and \<open>t = c / 100\<close>: at \<open>t = 1/2\<close> the estimate is clamped to 300, at
  \<open>t = - 2\<close> the quotient \<open>q / W\<close> is below 10.
\<close>

lemma est_lam_30_300: "est_lam 30 300 = 100"
  by (simp add: est_lam_def power2_eq_square)

lemma est_t_30_300: "est_t 30 300 (exp (- 100 - c * exp 1)) = c / 100"
  by (simp add: est_t_def est_q_def est_lam_30_300)

lemma est_q_30_300: "est_q 30 300 (exp (- 100 - c * exp 1)) = c * exp 1"
  by (simp add: est_q_def est_lam_30_300)



text \<open>
  \<open>sigmaR = 5\<close>, \<open>T = 5 * sqrt 10 / e\<close> and \<open>eps = exp (- 10 / e\<^sup>2 - 10)\<close>: then
  \<open>lam = 10 / e\<^sup>2\<close>, \<open>q = 10\<close>, \<open>t = e\<close>, the initial estimate is 10 and it is a root
  of \<open>newton_f p q\<close>, so the five Newton steps rest at 10.
\<close>

lemma fixed_lam: "est_lam 5 (5 * sqrt 10 / exp 1) = 10 / (exp 1)\<^sup>2"
  by (simp add: est_lam_def power_divide)

lemma fixed_p: "est_p 5 (5 * sqrt 10 / exp 1) = ln 10 - 1"
proof -
  have "ln ((exp (1::real))\<^sup>2) = 2"
    using ln_realpow [of "exp (1::real)" 2] by simp
  then show ?thesis
    by (simp add: est_p_def fixed_lam ln_div)
qed

lemma fixed_q: "est_q 5 (5 * sqrt 10 / exp 1) (exp (- (10 / (exp 1)\<^sup>2) - 10)) = 10"
  by (simp add: est_q_def fixed_lam)

lemma fixed_t: "est_t 5 (5 * sqrt 10 / exp 1) (exp (- (10 / (exp 1)\<^sup>2) - 10)) = exp 1"
  unfolding est_t_def fixed_q fixed_lam by (simp add: power2_eq_square)

lemma fixed_W: "est_W 5 (5 * sqrt 10 / exp 1) (exp (- (10 / (exp 1)\<^sup>2) - 10)) < 0"
  unfolding est_W_def fixed_t lambert_poly_factor
  using lambert_factor_e by (simp add: mult_pos_neg)

lemma fixed_N0: "est_N0 5 (5 * sqrt 10 / exp 1) (exp (- (10 / (exp 1)\<^sup>2) - 10)) = 10"
proof -
  let ?W = "est_W 5 (5 * sqrt 10 / exp 1) (exp (- (10 / (exp 1)\<^sup>2) - 10))"
  have "10 / ?W \<le> 0"
    using fixed_W by (intro divide_nonneg_neg) simp_all
  then have "10 / ?W \<le> 10" by linarith
  then have m: "max (10 / ?W) 10 = 10" by (rule max_absorb2)
  show ?thesis
    unfolding est_N0_def fixed_q m by simp
qed

lemma fixed_newton: "newton_f' (ln 10 - 1) 10 = 2" "newton_spec (ln 10 - 1) 10 10 = 10"
  by (simp_all add: newton_f'_def newton_spec_def newton_f_def algebra_simps)









text \<open>
  \<open>sigmaR = 10\<close>, \<open>T = 1/2\<close> and \<open>eps = 1.02\<close>: \<open>lam = 1/400\<close> and \<open>q\<close> is negative, between
  \<open>- 0.0225\<close> and \<open>- 0.0221\<close>. The initial estimate is 10 and the iterates lie in
  \<open>[1.17, 1.25]\<close>, \<open>[0.176, 0.205]\<close>, \<open>[0.034, 0.046]\<close> and \<open>[0.0038, 0.0096]\<close>; the
  fifth is negative and above \<open>- 1\<close>, so the ceiling that is returned is 0.
\<close>

lemma estimate_iteration_zero:
  "estimate_iteration 10 (1 / 2) (51 / 50) = Inr 0"
proof -
  let ?p = "est_p 10 (1 / 2)" and ?q = "est_q 10 (1 / 2) (51 / 50)"
  have lam: "est_lam 10 (1 / 2) = 1 / 400"
    by (simp add: est_lam_def power2_eq_square)
  have p: "?p = 1 - ln 400"
    by (simp add: est_p_def lam ln_div)
  have "ln (1 + 1 / 50 :: real) \<le> 1 / 50"
    by (rule ln_add_one_self_le_self) simp
  moreover have "1 / 50 - (1 / 50)\<^sup>2 \<le> ln (1 + 1 / 50 :: real)"
    by (rule ln_one_plus_pos_lower_bound) simp_all
  ultimately have ln102: "196 / 10000 \<le> ln (51 / 50 :: real)" "ln (51 / 50 :: real) \<le> 2 / 100"
    by (simp_all add: power2_eq_square)
  then have A: "221 / 10000 \<le> 1 / 400 + ln (51 / 50 :: real)"
    "1 / 400 + ln (51 / 50 :: real) \<le> 225 / 10000"
    by linarith+
  have q: "?q = - (1 / 400) - ln (51 / 50)"
    by (simp add: est_q_def lam)
  have A: "221 / 10000 \<le> - ?q" "- ?q \<le> 225 / 10000"
    using A unfolding q by linarith+
  have q_neg: "?q < 0" using A by simp
  have W: "est_W 10 (1 / 2) (51 / 50) \<noteq> 0"
    and N0: "est_N0 10 (1 / 2) (51 / 50) = 10"
    using est_negative_q [of 10 "1 / 2" "51 / 50"] q_neg by (simp_all add: lam)
  let ?N1 = "newton_spec ?p ?q 10"
  let ?N2 = "newton_spec ?p ?q ?N1"
  let ?N3 = "newton_spec ?p ?q ?N2"
  let ?N4 = "newton_spec ?p ?q ?N3"
  let ?N5 = "newton_spec ?p ?q ?N4"
  note E = exp_products
  have s1: "newton_step ?p ?q 10 = Inr ?N1"
    and b1: "117 / 100 \<le> ?N1" "?N1 \<le> 125 / 100"
    using newton_interval [OF _ p, of 10 10 10 "221 / 10000" ?q "225 / 10000" 8 "17 / 2"]
      A E(1,2) by simp_all
  have s2: "newton_step ?p ?q ?N1 = Inr ?N2"
    and b2: "176 / 1000 \<le> ?N2" "?N2 \<le> 205 / 1000"
    using newton_interval [OF _ p _ b1, of "221 / 10000" ?q "225 / 10000" 6 "13 / 2"]
      A E(3,4) by simp_all
  have s3: "newton_step ?p ?q ?N2 = Inr ?N3"
    and b3: "34 / 1000 \<le> ?N3" "?N3 \<le> 46 / 1000"
    using newton_interval [OF _ p _ b2, of "221 / 10000" ?q "225 / 10000" 4 "9 / 2"]
      A E(5,6) by simp_all
  have s4: "newton_step ?p ?q ?N3 = Inr ?N4"
    and b4: "38 / 10000 \<le> ?N4" "?N4 \<le> 96 / 10000"
    using newton_interval [OF _ p _ b3, of "221 / 10000" ?q "225 / 10000" "5 / 2" 3]
      A E(7,8) by simp_all
  have N4_pos: "0 < ?N4" using b4 by simp
  have f': "newton_f' ?p ?N4 = ln (400 * ?N4)"
    using N4_pos by (simp add: newton_f'_def p ln_mult)
  have "exp (1 / 4 :: real) \<le> 400 * ?N4"
    using exp_upper_bounds(1) b4(1) by simp
  then have low: "1 / 4 \<le> newton_f' ?p ?N4"
    unfolding f' using N4_pos by (intro ln_lower) simp_all
  have s5: "newton_step ?p ?q ?N4 = Inr ?N5"
    using N4_pos low by (simp add: newton_step_spec)
  have eq: "?N5 = (?N4 + ?q) / newton_f' ?p ?N4"
    using low by (intro newton_spec_eq) simp
  have num: "- (187 / 10000) \<le> ?N4 + ?q" "?N4 + ?q < 0"
    using b4 A by simp_all
  have "?N5 * newton_f' ?p ?N4 = ?N4 + ?q"
    using low by (simp add: eq)
  have N5_neg: "?N5 \<le> 0"
    unfolding eq using num low by (simp add: divide_le_0_iff)
  have "- 1 * newton_f' ?p ?N4 \<le> - (1 / 4)"
    using low by simp
  also have "\<dots> < ?N4 + ?q" using num by simp
  finally have N5_low: "- 1 < ?N5"
    unfolding eq using low by (simp add: pos_less_divide_eq)
  have "\<lceil>?N5\<rceil> = 0"
    using N5_neg N5_low by (intro ceiling_unique) simp_all
  moreover have "newton_loop 5 ?p ?q 10 = Inr ?N5"
    by (simp add: eval_nat_numeral s1 s2 s3 s4 s5)
  ultimately show ?thesis
    using W by (simp add: estimate_iteration_mid N0)
qed

subsection \<open>The claims on the third branch\<close>

text \<open>
  C2, as stated, fails: for \<open>sigmaR = 5\<close>, \<open>T = 0.5\<close> (the value that \<^verbatim>\<open>GPA\<close> passes)
  and \<open>eps = 100000\<close> the initial estimate is 10, the first Newton step gives a negative
  \<open>N\<close>, and the second step raises \<^verbatim>\<open>ValueError\<close> in \<^verbatim>\<open>math.log(N)\<close>: the function
  neither applies five iterations nor returns.
\<close>

theorem estimate_iteration_newton_raises:
  "estimate_iteration 5 (1 / 2) 100000 = Inl ValueError"
proof -
  let ?p = "est_p 5 (1 / 2)" and ?q = "est_q 5 (1 / 2) 100000"
  let ?t = "est_t 5 (1 / 2) 100000"
  have lam: "est_lam 5 (1 / 2) = 1 / 100"
    by (simp add: est_lam_def power2_eq_square)
  have q: "?q = - (1 / 100) - ln 100000"
    by (simp add: est_q_def lam)
  have q_neg: "?q < - 10" using ln_100000 by (simp add: q)
  have t_neg: "?t < 0"
    using q_neg by (simp add: est_t_def lam field_simps)
  have fac: "1 \<le> lambert_factor ?t"
    using t_neg by (intro lambert_factor_ge_1) simp
  have W: "est_W 5 (1 / 2) 100000 \<noteq> 0"
    using t_neg fac by (simp add: est_W_def lambert_poly_factor)
  have "est_q 5 (1 / 2) 100000 / est_W 5 (1 / 2) 100000
        = exp 1 * (1 / 100) / lambert_factor ?t"
    using est_quotient [of 5 "1 / 2" 100000] t_neg by (simp add: lam)
  also have "\<dots> \<le> 3 * (1 / 100) / 1"
    using fac exp_le by (intro frac_le mult_mono) simp_all
  also have "\<dots> \<le> 10" by simp
  finally have quot: "est_q 5 (1 / 2) 100000 / est_W 5 (1 / 2) 100000 \<le> 10" .
  have N0: "est_N0 5 (1 / 2) 100000 = 10"
    using quot by (simp add: est_N0_def)
  have p: "?p = 1 - ln 100"
    by (simp add: est_p_def lam ln_div)
  have d: "newton_f' ?p 10 = ln 10 + ln 100"
    by (simp add: newton_f'_def p)
  have d_pos: "0 < newton_f' ?p 10"
    unfolding d by (intro add_pos_pos) simp_all
  have N1: "newton_spec ?p ?q 10 < 0"
    using d_pos q_neg by (simp add: newton_spec_eq field_simps)
  have s1: "newton_step ?p ?q 10 = Inr (newton_spec ?p ?q 10)"
    using d_pos by (simp add: newton_step_spec)
  have s2: "newton_step ?p ?q (newton_spec ?p ?q 10) = Inl ValueError"
    using N1 by (simp add: newton_step_spec)
  have "newton_loop 5 ?p ?q 10 = Inl ValueError"
    by (simp add: eval_nat_numeral s1 s2)
  then show ?thesis
    using W by (simp add: estimate_iteration_mid N0)
qed

text \<open>
  C2, amended. For every \<open>sigmaR\<close> with \<open>5 \<le> sigmaR \<le> 70\<close> and every \<open>T > 0\<close>,
  \<open>eps > 0\<close>, \<open>estimate_iteration\<close> computes \<open>lam = (T / sigmaR)\<^sup>2\<close>, \<open>p = 1 + ln lam\<close>,
  \<open>q = - lam - ln eps\<close> and the initial estimate \<open>N0\<close>, clamped to \<open>[10, 300]\<close>. It
  returns \<open>n\<close> exactly when \<open>W \<noteq> 0\<close> and, if \<open>sigmaR < 30\<close>, each of the five Newton
  iterations solving \<open>N * ln N - p * N - q = 0\<close> starts from a positive \<open>N\<close> with
  \<open>ln N + 1 - p \<noteq> 0\<close> and \<open>n\<close> is the ceiling of the fifth iterate, and, if
  \<open>sigmaR \<ge> 30\<close>, \<open>n\<close> is the ceiling of \<open>N0\<close>. Otherwise it raises.
\<close>

theorem estimate_iteration_formula:
  assumes "5 \<le> sigmaR" and "sigmaR \<le> 70" and "0 < T" and "0 < eps"
  defines "lam \<equiv> est_lam sigmaR T"
    and "p \<equiv> est_p sigmaR T"
    and "q \<equiv> est_q sigmaR T eps"
    and "N0 \<equiv> est_N0 sigmaR T eps"
  shows "lam = (T / sigmaR)\<^sup>2 \<and> p = 1 + ln lam \<and> q = - lam - ln eps
     \<and> 10 \<le> N0 \<and> N0 \<le> 300
     \<and> (\<forall>N>0. (newton_f p q has_real_derivative newton_f' p N) (at N))
     \<and> (estimate_iteration sigmaR T eps = Inr n \<longleftrightarrow>
          est_W sigmaR T eps \<noteq> 0
          \<and> (if sigmaR < 30
             then (\<forall>k<5. 0 < (newton_spec p q ^^ k) N0
                          \<and> newton_f' p ((newton_spec p q ^^ k) N0) \<noteq> 0)
                  \<and> n = \<lceil>(newton_spec p q ^^ 5) N0\<rceil>
             else n = \<lceil>N0\<rceil>))"
proof -
  have defs: "lam = (T / sigmaR)\<^sup>2 \<and> p = 1 + ln lam \<and> q = - lam - ln eps"
    by (simp add: lam_def p_def q_def est_lam_def est_p_def est_q_def)
  have bounds: "10 \<le> N0 \<and> N0 \<le> 300"
    unfolding N0_def by (rule est_N0_bounds)
  have deriv: "\<forall>N>0. (newton_f p q has_real_derivative newton_f' p N) (at N)"
    by (simp add: newton_f_deriv)
  have loop: "(\<exists>N'. newton_loop 5 p q N0 = Inr N' \<and> n = \<lceil>N'\<rceil>) \<longleftrightarrow>
      (\<forall>k<5. 0 < (newton_spec p q ^^ k) N0 \<and> newton_f' p ((newton_spec p q ^^ k) N0) \<noteq> 0)
      \<and> n = \<lceil>(newton_spec p q ^^ 5) N0\<rceil>"
    by (auto simp: newton_loop_spec)
  have "estimate_iteration sigmaR T eps = Inr n \<longleftrightarrow>
      est_W sigmaR T eps \<noteq> 0
      \<and> (if sigmaR < 30 then (\<exists>N'. newton_loop 5 p q N0 = Inr N' \<and> n = \<lceil>N'\<rceil>)
         else n = \<lceil>N0\<rceil>)"
    unfolding estimate_iteration_mid [OF assms(1-4)] p_def q_def N0_def
    by (auto split: sum.splits)
  then show ?thesis
    using defs bounds deriv loop by simp
qed

theorem estimate_iteration_formula_witness:
  "(5::real) \<le> 30 \<and> (30::real) \<le> 70 \<and> (0::real) < 300 \<and> 0 < exp (- 100 - 50 * exp (1::real))
   \<and> estimate_iteration 30 300 (exp (- 100 - 50 * exp 1)) = Inr 300
   \<and> (5::real) \<le> 5 \<and> (5::real) \<le> 70 \<and> 0 < 5 * sqrt 10 / exp (1::real)
   \<and> 0 < exp (- (10 / (exp (1::real))\<^sup>2) - 10)
   \<and> estimate_iteration 5 (5 * sqrt 10 / exp 1) (exp (- (10 / (exp 1)\<^sup>2) - 10)) = Inr 10"
proof -
  have h: "(5::real) \<le> 30" "(30::real) \<le> 70" "(0::real) < 300"
    "0 < exp (- 100 - 50 * exp (1::real))"
    by simp_all
  have W1: "est_W 30 300 (exp (- 100 - 50 * exp 1)) = 13 / 48"
    by (simp add: est_W_def est_t_30_300 lambert_poly_def power2_eq_square
        power3_eq_cube power4_eq_xxxx)
  have "300 \<le> 50 * exp (1::real) / (13 / 48)"
    using exp_1_ge_2 by simp
  then have N1: "est_N0 30 300 (exp (- 100 - 50 * exp 1)) = 300"
    by (simp add: est_N0_def W1 est_q_30_300)
  note upper = estimate_iteration_formula [OF h, of 300, THEN conjunct2, THEN conjunct2,
      THEN conjunct2, THEN conjunct2, THEN conjunct2, THEN conjunct2]
  have a: "estimate_iteration 30 300 (exp (- 100 - 50 * exp 1)) = Inr 300"
    unfolding upper by (simp add: W1 N1)
  have g: "(5::real) \<le> 5" "(5::real) \<le> 70" "0 < 5 * sqrt 10 / exp (1::real)"
    "0 < exp (- (10 / (exp (1::real))\<^sup>2) - 10)"
    by simp_all
  have rest: "(newton_spec (ln 10 - 1) 10 ^^ k) 10 = 10" for k
    by (rule funpow_rest) (rule fixed_newton)
  note newton = estimate_iteration_formula [OF g, of 10, THEN conjunct2, THEN conjunct2,
      THEN conjunct2, THEN conjunct2, THEN conjunct2, THEN conjunct2]
  have b: "estimate_iteration 5 (5 * sqrt 10 / exp 1) (exp (- (10 / (exp 1)\<^sup>2) - 10)) = Inr 10"
    unfolding newton fixed_p fixed_q fixed_N0 rest fixed_newton
    using fixed_W by simp
  show ?thesis
    using h g a b by blast
qed

text \<open>
  C3, as stated, fails on a call that \<^verbatim>\<open>GPA\<close> makes: for \<open>sigmaR = 10\<close>, \<open>T = 0.5\<close>
  and \<open>eps = 1.02\<close> the fifth Newton step gives a negative \<open>N\<close> above \<open>- 1\<close> and the
  function returns 0, which is not positive.
\<close>

theorem estimate_iteration_returns_zero:
  "estimate_iteration 10 (1 / 2) (102 / 100) = Inr 0"
  using estimate_iteration_zero by simp

text \<open>
  C3, amended. For every \<open>sigmaR > 0\<close>, \<open>T > 0\<close> and \<open>eps > 0\<close> such that \<open>sigmaR > 70\<close>,
  or \<open>sigmaR < 5\<close>, or \<open>sigmaR \<ge> 30\<close> and \<open>W \<noteq> 0\<close>, or \<open>T \<le> 1/2\<close> (the value that
  \<^verbatim>\<open>GPA\<close> passes is \<open>1/2\<close>) and \<open>exp (- 4000) \<le> eps \<le> 9/10\<close>, \<open>estimate_iteration\<close>
  returns, without raising, an integer \<open>n\<close> with \<open>0 < n \<le> 800\<close>: 10 for
  \<open>sigmaR > 70\<close>, 800 for \<open>sigmaR < 5\<close> and between 10 and 300 for
  \<open>30 \<le> sigmaR \<le> 70\<close>.
\<close>

theorem estimate_iteration_bounded_region:
  assumes "0 < sigmaR" and "0 < T" and "0 < eps"
    and region: "sigmaR > 70 \<or> sigmaR < 5
      \<or> (30 \<le> sigmaR \<and> est_W sigmaR T eps \<noteq> 0)
      \<or> (T \<le> 1 / 2 \<and> exp (- 4000) \<le> eps \<and> eps \<le> 9 / 10)"
  shows "\<exists>n. estimate_iteration sigmaR T eps = Inr n \<and> 0 < n \<and> n \<le> 800
     \<and> (sigmaR > 70 \<longrightarrow> n = 10) \<and> (sigmaR < 5 \<longrightarrow> n = 800)
     \<and> (30 \<le> sigmaR \<and> sigmaR \<le> 70 \<longrightarrow> 10 \<le> n \<and> n \<le> 300)"
proof (cases "sigmaR > 70 \<or> sigmaR < 5")
  case True
  then show ?thesis
    by (auto simp: estimate_iteration_def)
next
  case False
  then have band: "5 \<le> sigmaR" "sigmaR \<le> 70" by simp_all
  show ?thesis
  proof (cases "30 \<le> sigmaR")
    case True
    have W: "est_W sigmaR T eps \<noteq> 0"
    proof (cases "est_W sigmaR T eps \<noteq> 0")
      case True
      then show ?thesis .
    next
      case no: False
      with region False True have "T \<le> 1 / 2" "eps \<le> 9 / 10" by auto
      then have "est_W sigmaR T eps < 0"
        using est_half(4) [OF band(1) assms(2) _ assms(3)] by simp
      then show ?thesis by simp
    qed
    have b: "10 \<le> est_N0 sigmaR T eps" "est_N0 sigmaR T eps \<le> 300"
      using est_N0_bounds [of sigmaR T eps] by simp_all
    have "10 \<le> \<lceil>est_N0 sigmaR T eps\<rceil>"
      using b(1) by (simp add: le_ceiling_iff)
    moreover have "\<lceil>est_N0 sigmaR T eps\<rceil> \<le> 300"
      using b(2) by (simp add: ceiling_le_iff)
    ultimately show ?thesis
      using estimate_iteration_upper [OF True band(2) assms(2,3) W] band by simp
  next
    case newton: False
    with region False have r: "T \<le> 1 / 2" "exp (- 4000) \<le> eps" "eps \<le> 9 / 10"
      by auto
    have "sigmaR < 30" using newton by simp
    then show ?thesis
      using estimate_iteration_half_newton [OF band(1) _ assms(2) r] band(1) by auto
  qed
qed

theorem estimate_iteration_bounded_region_witness:
  "(0::real) < 153 / 4 \<and> (0::real) < 1 / 2 \<and> (0::real) < 1 / 1000
   \<and> (1 / 2 :: real) \<le> 1 / 2 \<and> exp (- 4000) \<le> (1 / 1000 :: real)
   \<and> (1 / 1000 :: real) \<le> 9 / 10
   \<and> estimate_iteration (153 / 4) (1 / 2) (1 / 1000) = Inr 10
   \<and> (\<exists>n. estimate_iteration 10 (1 / 2) (1 / 1000) = Inr n \<and> 0 < n \<and> n \<le> 800)"
proof -
  have r: "(153 / 4 :: real) > 70 \<or> (153 / 4 :: real) < 5
      \<or> (30 \<le> (153 / 4 :: real) \<and> est_W (153 / 4) (1 / 2) (1 / 1000) \<noteq> 0)
      \<or> ((1 / 2 :: real) \<le> 1 / 2 \<and> exp (- 4000) \<le> (1 / 1000 :: real)
          \<and> (1 / 1000 :: real) \<le> 9 / 10)"
    using tolerance_in_range by simp
  have r': "(10 :: real) > 70 \<or> (10 :: real) < 5
      \<or> (30 \<le> (10 :: real) \<and> est_W 10 (1 / 2) (1 / 1000) \<noteq> 0)
      \<or> ((1 / 2 :: real) \<le> 1 / 2 \<and> exp (- 4000) \<le> (1 / 1000 :: real)
          \<and> (1 / 1000 :: real) \<le> 9 / 10)"
    using tolerance_in_range by simp
  have a: "\<exists>n. estimate_iteration (153 / 4) (1 / 2) (1 / 1000) = Inr n \<and> 0 < n \<and> n \<le> 800
     \<and> ((153 / 4 :: real) > 70 \<longrightarrow> n = 10) \<and> ((153 / 4 :: real) < 5 \<longrightarrow> n = 800)
     \<and> (30 \<le> (153 / 4 :: real) \<and> (153 / 4 :: real) \<le> 70 \<longrightarrow> 10 \<le> n \<and> n \<le> 300)"
    by (rule estimate_iteration_bounded_region [OF _ _ _ r]) simp_all
  have b: "\<exists>n. estimate_iteration 10 (1 / 2) (1 / 1000) = Inr n \<and> 0 < n \<and> n \<le> 800
     \<and> ((10 :: real) > 70 \<longrightarrow> n = 10) \<and> ((10 :: real) < 5 \<longrightarrow> n = 800)
     \<and> (30 \<le> (10 :: real) \<and> (10 :: real) \<le> 70 \<longrightarrow> 10 \<le> n \<and> n \<le> 300)"
    by (rule estimate_iteration_bounded_region [OF _ _ _ r']) simp_all
  have c: "estimate_iteration (153 / 4) (1 / 2) (1 / 1000) = Inr 10"
    by (rule estimate_iteration_half_upper) simp_all
  show ?thesis
    using a b c tolerance_in_range by auto
qed




section \<open>Properties of GPA\<close>

subsection \<open>The programs of GPA\<close>

text \<open>
  Each reverse Polish program that \<^verbatim>\<open>GPA\<close> passes to \<^verbatim>\<open>Expr\<close> is well formed and
  computes the arithmetic expression on the right.
\<close>

lemma Expr_H: "Expr [c] [Tx, Num T, Sub, Num s, Div] = c\<lparr>pixels := \<lambda>x. (pixels c x - T) / s\<rparr>"
  by (simp add: Expr_def)

lemma Expr_F0: "Expr [h] [Num k, Tx, Dup, Mul, Mul, Exp]
   = h\<lparr>pixels := \<lambda>x. exp (k * (pixels h x * pixels h x))\<rparr>"
  by (simp add: Expr_def)

lemma Expr_Q: "Expr [q, g, f] [Tx, Ty, Tz, Mul, Add]
   = q\<lparr>pixels := \<lambda>x. pixels q x + pixels g x * pixels f x\<rparr>"
  by (simp add: Expr_def)

lemma Expr_scaled: "Expr [h, f] [Tx, Ty, Mul, Num c, Mul]
   = h\<lparr>pixels := \<lambda>x. pixels h x * pixels f x * c\<rparr>"
  by (simp add: Expr_def)

lemma Expr_P: "Expr [p, g, f] [Tx, Ty, Tz, Mul, Num c, Mul, Add]
   = p\<lparr>pixels := \<lambda>x. pixels p x + pixels g x * pixels f x * c\<rparr>"
  by (simp add: Expr_def)

lemma Expr_res: "Expr [p, q] [Tx, Num s, Mul, Ty, Num e, Add, Div, Num T, Add]
   = p\<lparr>pixels := \<lambda>x. pixels p x * s / (pixels q x + e) + T\<rparr>"
  by (simp add: Expr_def)

lemma series_Fbar: "series Fl H n = (F, Fbar, G, P, Q) \<Longrightarrow> Fbar = Fl F"
  by (cases n) (auto simp: Let_def split: prod.splits)

lemma gpa_loop_series:
  fixes c :: "'px clip" and Filter :: "'px clip \<Rightarrow> 'px clip"
  defines "Fl \<equiv> plane_filter Filter c"
  assumes s: "series Fl H n = (F, Fbar, G, P, Q)"
  shows "foldl (gpa_body Filter (c\<lparr>pixels := H\<rparr>))
           (c\<lparr>pixels := \<lambda>x. exp (- (H x)\<^sup>2 / 2)\<rparr>, c\<lparr>pixels := \<lambda>x. 1\<rparr>,
            c\<lparr>pixels := \<lambda>x. 0\<rparr>, c\<lparr>pixels := \<lambda>x. 0\<rparr>,
            Filter (c\<lparr>pixels := \<lambda>x. exp (- (H x)\<^sup>2 / 2)\<rparr>)) [1..int n]
         = (c\<lparr>pixels := F\<rparr>, c\<lparr>pixels := G\<rparr>, c\<lparr>pixels := P\<rparr>, c\<lparr>pixels := Q\<rparr>,
            Filter (c\<lparr>pixels := F\<rparr>))"
  using s
proof (induction n arbitrary: F Fbar G P Q)
  case 0
  then show ?case by (auto simp: Let_def Fl_def plane_filter_def)
next
  case (Suc n)
  obtain F1 Fbar1 G1 P1 Q1 where s1: "series Fl H n = (F1, Fbar1, G1, P1, Q1)"
    by (metis prod_cases5)
  have fb: "Fbar1 = Fl F1" using s1 by (rule series_Fbar)
  have up: "[1..int (Suc n)] = [1..int n] @ [int n + 1]"
    using upto_rec2 [of 1 "int (Suc n)"] by simp
  have r: "real_of_int (int n + 1) = real (Suc n)" by simp
  show ?case
    using Suc.prems s1 fb
    unfolding up foldl_append Suc.IH [OF s1]
    by (auto simp: gpa_body_def Let_def Expr_Q Expr_P Expr_scaled Fl_def plane_filter_def
        divide_inverse mult.assoc add.commute)
qed

lemma gpa_accumulate_series:
  assumes "series (plane_filter Filter c) (\<lambda>x. (pixels c x - T) / sigmaR) n = (F, Fbar, G, P, Q)"
  shows "gpa_accumulate Filter T sigmaR (int n) c
         = (c\<lparr>pixels := F\<rparr>, c\<lparr>pixels := G\<rparr>, c\<lparr>pixels := P\<rparr>, c\<lparr>pixels := Q\<rparr>,
            Filter (c\<lparr>pixels := F\<rparr>))"
proof -
  have e: "- (1 / 2) * (a * a) = - a\<^sup>2 / 2" for a :: real
    by (simp add: power2_eq_square)
  show ?thesis
    using gpa_loop_series [OF assms]
    by (simp add: gpa_accumulate_def Let_def Expr_H Expr_F0 BlankClip_def power2_eq_square)
qed

lemma series_constant:
  assumes one: "Fl (\<lambda>x. 1) = (\<lambda>x. 1)" and zero: "Fl (\<lambda>x. 0) = (\<lambda>x. 0)"
  shows "series Fl (\<lambda>x. 0) (Suc n) = ((\<lambda>x. 0), (\<lambda>x. 0), (\<lambda>x. 0), (\<lambda>x. 0), (\<lambda>x. 1))"
proof (induction n)
  case 0
  show ?case by (simp add: Let_def one zero)
next
  case (Suc n)
  show ?case
    unfolding series.simps(2) [of Fl "\<lambda>x. 0" "Suc n"] Suc.IH
    by (simp add: Let_def zero)
qed

lemma gpa_combine_constant:
  assumes input: "pixels c = (\<lambda>x. T)"
    and lowpass: "\<forall>c v. pixels c = (\<lambda>x. v) \<longrightarrow> pixels (Filter c) = (\<lambda>x. v)"
    and N: "1 \<le> N"
  shows "gpa_combine Filter T sigmaR N c = c"
proof -
  have "N = int (Suc (nat (N - 1)))" using N by simp
  then obtain n where n: "N = int (Suc n)" ..
  have fl: "plane_filter Filter c (\<lambda>x. v) = (\<lambda>x. v)" for v
    using lowpass by (simp add: plane_filter_def)
  have H: "(\<lambda>x. (pixels c x - T) / sigmaR) = (\<lambda>x. 0)"
    by (simp add: input)
  have s: "series (plane_filter Filter c) (\<lambda>x. (pixels c x - T) / sigmaR) (Suc n)
        = ((\<lambda>x. 0), (\<lambda>x. 0), (\<lambda>x. 0), (\<lambda>x. 0), (\<lambda>x. 1))"
    unfolding H by (rule series_constant) (rule fl)+
  have "gpa_combine Filter T sigmaR N c = c\<lparr>pixels := \<lambda>x. T\<rparr>"
    unfolding n gpa_combine_def gpa_accumulate_series [OF s]
    by (simp add: Expr_res)
  also have "\<dots> = c"
    using input by (cases c) simp
  finally show ?thesis .
qed

subsection \<open>The accumulation\<close>

text \<open>
  C1. For every input plane, every \<open>sigmaR > 0\<close>, \<open>T = 0.5\<close>, every positive iteration
  count \<open>N\<close> and every low-pass operator \<open>Filter\<close>, the accumulation of \<^verbatim>\<open>GPA\<close>
  computes exactly the recurrence of the specification (\<open>series\<close>, with
  \<open>H = (x - T) / sigmaR\<close>), and the output plane is \<open>sigmaR * P\<^sub>N / (Q\<^sub>N + 1e-5) + T\<close>
  at every sample, converted by \<open>Depth\<close> to the format of the input.
\<close>

theorem GPA_recurrence:
  fixes eng :: "('px, 'd) engine" and clip :: "'px clip" and depth_args :: 'd
    and mode :: int and sigmaS :: real
  defines "c32 \<equiv> Depth eng clip 32 FLOAT depth_args"
  defines "Filter \<equiv> select_filter eng mode sigmaS"
  assumes "0 < sigmaR" and "0 < N"
  shows "case series (plane_filter Filter c32) (\<lambda>x. (pixels c32 x - 1 / 2) / sigmaR) (nat N) of
           (F, Fbar, G, P, Q) \<Rightarrow>
             gpa_accumulate Filter (1 / 2) sigmaR N c32
               = (c32\<lparr>pixels := F\<rparr>, c32\<lparr>pixels := G\<rparr>, c32\<lparr>pixels := P\<rparr>,
                  c32\<lparr>pixels := Q\<rparr>, Filter (c32\<lparr>pixels := F\<rparr>))
             \<and> Fbar = plane_filter Filter c32 F
             \<and> GPA eng clip sigmaS sigmaR mode N eps depth_args
               = Inr (Depth eng
                   (c32\<lparr>pixels := \<lambda>x. sigmaR * P x / (Q x + 1 / 100000) + 1 / 2\<rparr>)
                   (bits_per_sample clip) (sample_type clip) depth_args)"
proof -
  obtain F Fbar G P Q where
    s: "series (plane_filter Filter c32) (\<lambda>x. (pixels c32 x - 1 / 2) / sigmaR) (nat N)
        = (F, Fbar, G, P, Q)"
    by (metis prod_cases5)
  have n: "int (nat N) = N" using assms by simp
  have acc: "gpa_accumulate Filter (1 / 2) sigmaR N c32
       = (c32\<lparr>pixels := F\<rparr>, c32\<lparr>pixels := G\<rparr>, c32\<lparr>pixels := P\<rparr>,
          c32\<lparr>pixels := Q\<rparr>, Filter (c32\<lparr>pixels := F\<rparr>))"
    using gpa_accumulate_series [OF s] by (simp only: n)
  have fb: "Fbar = plane_filter Filter c32 F" using s by (rule series_Fbar)
  have "N \<noteq> 0" using assms by simp
  then have "GPA eng clip sigmaS sigmaR mode N eps depth_args
       = Inr (Depth eng (gpa_combine Filter (1 / 2) sigmaR N c32)
           (bits_per_sample clip) (sample_type clip) depth_args)"
    by (simp add: GPA_def Let_def Filter_def c32_def)
  moreover have "gpa_combine Filter (1 / 2) sigmaR N c32
       = c32\<lparr>pixels := \<lambda>x. sigmaR * P x / (Q x + 1 / 100000) + 1 / 2\<rparr>"
    by (simp add: gpa_combine_def acc Expr_res mult.commute)
  ultimately show ?thesis
    using acc fb by (simp add: s)
qed

theorem GPA_recurrence_witness:
  "(0::real) < 15 / 100 \<and> (0::int) < 1
   \<and> GPA identity_engine grey_clip 3 (15 / 100) 0 1 (1 / 1000) () = Inr grey_clip"
  using GPA_recurrence [where sigmaR = "15 / 100" and N = 1 and eng = identity_engine
      and mode = 0 and sigmaS = 3 and clip = grey_clip and depth_args = "()" and eps = "1 / 1000"]
  by (simp add: identity_engine_def grey_clip_def plane_filter_def select_filter_def Let_def)


text \<open>
  C7. When the accumulation loop runs for \<open>N = 0\<close> iterations, the accumulator planes
  stay \<open>P = Q = 0\<close> everywhere and the combined output \<open>sigmaR * P / (Q + 1e-5) + T\<close> is
  \<open>T\<close> everywhere; the denominator is the constant \<open>1e-5\<close>, which is not zero.
\<close>

theorem gpa_zero_iterations:
  "(case gpa_accumulate Filter T sigmaR 0 clip of
      (F, G, P, Q, Fbar) \<Rightarrow>
        pixels P = (\<lambda>x. 0) \<and> pixels Q = (\<lambda>x. 0)
        \<and> (\<forall>x. pixels Q x + 1 / 100000 = 1 / 100000))
   \<and> (1 / 100000 :: real) \<noteq> 0
   \<and> pixels (gpa_combine Filter T sigmaR 0 clip) = (\<lambda>x. T)"
  by (simp add: gpa_combine_def gpa_accumulate_def Let_def BlankClip_def Expr_res)

text \<open>
  C8. For an input that is 0.5 at every sample (as a 32-bit float clip), with
  \<open>sigmaR = 0.15\<close>, \<open>T = 0.5\<close>, any iteration count \<open>N \<ge> 1\<close> and any low-pass operator
  that maps constant planes to themselves, the output plane of \<^verbatim>\<open>GPA\<close> is 0.5 at
  every sample: the clip that is returned is the conversion of the unchanged float clip
  to the format of the input.
\<close>

theorem GPA_constant_input:
  fixes eng :: "('px, 'd) engine" and clip :: "'px clip" and depth_args :: 'd
    and mode :: int and sigmaS :: real
  defines "c32 \<equiv> Depth eng clip 32 FLOAT depth_args"
  defines "Filter \<equiv> select_filter eng mode sigmaS"
  assumes input: "pixels c32 = (\<lambda>x. 1 / 2)"
    and lowpass: "\<forall>c v. pixels c = (\<lambda>x. v) \<longrightarrow> pixels (Filter c) = (\<lambda>x. v)"
    and N: "1 \<le> N"
  shows "pixels (gpa_combine Filter (1 / 2) (15 / 100) N c32) = (\<lambda>x. 1 / 2)
     \<and> GPA eng clip sigmaS (15 / 100) mode N eps depth_args
       = Inr (Depth eng c32 (bits_per_sample clip) (sample_type clip) depth_args)"
proof -
  have comb: "gpa_combine Filter (1 / 2) (15 / 100) N c32 = c32"
    using input lowpass N by (rule gpa_combine_constant)
  have "N \<noteq> 0" using N by simp
  then have "GPA eng clip sigmaS (15 / 100) mode N eps depth_args
       = Inr (Depth eng (gpa_combine Filter (1 / 2) (15 / 100) N c32)
           (bits_per_sample clip) (sample_type clip) depth_args)"
    unfolding GPA_def Let_def Filter_def c32_def by simp
  then show ?thesis
    unfolding comb using input by simp
qed

theorem GPA_constant_input_witness:
  "pixels (Depth identity_engine grey_clip 32 FLOAT ()) = (\<lambda>x. 1 / 2)
   \<and> (1::int) \<le> 4
   \<and> GPA identity_engine grey_clip 3 (15 / 100) 0 4 (1 / 1000) () = Inr grey_clip"
proof -
  have input: "pixels (Depth identity_engine grey_clip 32 FLOAT ()) = (\<lambda>x. 1 / 2)"
    by (simp add: identity_engine_def grey_clip_def)
  have lowpass: "\<forall>c v. pixels c = (\<lambda>x. v)
      \<longrightarrow> pixels (select_filter identity_engine 0 3 c) = (\<lambda>x. v)"
    by (simp add: identity_engine_def select_filter_def)
  have N: "(1::int) \<le> 4" by simp
  show ?thesis
    using GPA_constant_input [OF input lowpass N, of "1 / 1000"] input
    by (simp add: identity_engine_def grey_clip_def)
qed

text \<open>
  C9. \<^verbatim>\<open>GPA\<close> does not validate the mode flag: \<open>mode = 0\<close> selects \<open>TCanny\<close> with
  \<open>sigma = sigmaS\<close> and \<open>mode = -1\<close>, every other value of \<open>mode\<close> selects \<open>BoxFilter\<close>
  with radius \<open>sigmaS + 1\<close>, and no value of \<open>mode\<close> raises an error: \<^verbatim>\<open>GPA\<close> raises
  exactly when \<open>iteration = 0\<close> and \<open>estimate_iteration\<close> raises.
\<close>

theorem GPA_mode:
  "(mode = 0 \<longrightarrow>
      GPA eng clip sigmaS sigmaR mode iteration eps depth_args
      = (case (if iteration = 0 then estimate_iteration (sigmaR * 255) (1 / 2) eps
               else Inr iteration) of
           Inl e \<Rightarrow> Inl e
         | Inr n \<Rightarrow>
             Inr (Depth eng
               (gpa_combine (\<lambda>c. TCanny eng c sigmaS (- 1)) (1 / 2) sigmaR n
                  (Depth eng clip 32 FLOAT depth_args))
               (bits_per_sample clip) (sample_type clip) depth_args)))
   \<and> (mode \<noteq> 0 \<longrightarrow>
      GPA eng clip sigmaS sigmaR mode iteration eps depth_args
      = (case (if iteration = 0 then estimate_iteration (sigmaR * 255) (1 / 2) eps
               else Inr iteration) of
           Inl e \<Rightarrow> Inl e
         | Inr n \<Rightarrow>
             Inr (Depth eng
               (gpa_combine (\<lambda>c. BoxFilter eng c (sigmaS + 1)) (1 / 2) sigmaR n
                  (Depth eng clip 32 FLOAT depth_args))
               (bits_per_sample clip) (sample_type clip) depth_args)))
   \<and> (GPA eng clip sigmaS sigmaR mode iteration eps depth_args = Inl e
        \<longleftrightarrow> iteration = 0 \<and> estimate_iteration (sigmaR * 255) (1 / 2) eps = Inl e)"
  by (auto simp: GPA_def select_filter_def Let_def split: sum.splits)

theorem GPA_mode_witness:
  "(7::int) \<noteq> 0
   \<and> GPA probe_engine grey_clip 3 (15 / 100) 7 1 (1 / 1000) ()
       = Inr (grey_clip\<lparr>pixels := \<lambda>x. 60000 / 400001 + 1 / 2\<rparr>)
   \<and> GPA probe_engine grey_clip 3 (15 / 100) 0 1 (1 / 1000) ()
       = Inr (grey_clip\<lparr>pixels := \<lambda>x. 45000 / 300001 + 1 / 2\<rparr>)"
  using GPA_mode [where mode = 7 and eng = probe_engine and clip = grey_clip
      and sigmaS = 3 and sigmaR = "15 / 100" and iteration = 1 and eps = "1 / 1000"
      and depth_args = "()"]
    GPA_mode [where mode = 0 and eng = probe_engine and clip = grey_clip
      and sigmaS = 3 and sigmaR = "15 / 100" and iteration = 1 and eps = "1 / 1000"
      and depth_args = "()"]
  by (simp add: probe_engine_def grey_clip_def gpa_combine_def gpa_accumulate_def
      gpa_body_def Let_def BlankClip_def Expr_res Expr_H Expr_F0 Expr_Q Expr_P Expr_scaled)

text \<open>
  C10. If \<^verbatim>\<open>GPA\<close> is called with a negative iteration count, the count is not
  estimated (no error of the estimator can occur, and \<open>eps\<close> plays no role), the range
  of the loop is empty, and the plane that is returned is \<open>T = 0.5\<close> at every sample,
  converted to the format of the input, whatever the samples of the input are.
\<close>

theorem GPA_negative_iteration:
  assumes "iteration < 0"
  shows "[1..iteration] = []
     \<and> GPA eng clip sigmaS sigmaR mode iteration eps depth_args
       = Inr (Depth eng ((Depth eng clip 32 FLOAT depth_args)\<lparr>pixels := \<lambda>x. 1 / 2\<rparr>)
           (bits_per_sample clip) (sample_type clip) depth_args)"
  using assms
  by (simp add: GPA_def gpa_combine_def gpa_accumulate_def Let_def BlankClip_def Expr_res)

theorem GPA_negative_iteration_witness:
  "(- 3 :: int) < 0
   \<and> GPA identity_engine \<lparr>bits_per_sample = 8, sample_type = INTEGER, pixels = (\<lambda>x. 200)\<rparr>
         3 (15 / 100) 0 (- 3) (1 / 1000) ()
       = Inr \<lparr>bits_per_sample = 8, sample_type = INTEGER, pixels = (\<lambda>x. 1 / 2)\<rparr>"
  using GPA_negative_iteration [where iteration = "- 3" and eng = identity_engine
      and clip = "\<lparr>bits_per_sample = 8, sample_type = INTEGER, pixels = (\<lambda>x. 200)\<rparr>"
      and sigmaS = 3 and sigmaR = "15 / 100" and mode = 0 and eps = "1 / 1000"
      and depth_args = "()"]
  by (simp add: identity_engine_def)


end
